theory Spec2Isabelle
  imports Main
begin

section \<open>Python builtins used by \<^verbatim>\<open>ray/dag/context.py\<close>\<close>

text \<open>
  A Python \<^verbatim>\<open>str\<close> is modelled as a \<^typ>\<open>string\<close> whose characters are the code points
  below 256. \<^verbatim>\<open>os.environ\<close> is a partial map from names to values.
  The only exception the module can raise is the \<^verbatim>\<open>ValueError\<close> of \<^verbatim>\<open>int(str)\<close>.
\<close>

datatype error = ValueError

type_synonym environ = "string \<rightharpoonup> string"

definition py_isspace :: "char \<Rightarrow> bool" where
  \<comment> \<open>the code points below 256 that \<^verbatim>\<open>int\<close> skips around a number:
      tab, LF, VT, FF, CR, space, NEL and the no-break space\<close>
  "py_isspace c = ((of_char c :: nat) \<in> {9, 10, 11, 12, 13, 32, 133, 160})"

definition py_isdigit :: "char \<Rightarrow> bool" where
  "py_isdigit c = (48 \<le> (of_char c :: nat) \<and> (of_char c :: nat) \<le> 57)"

definition digit_value :: "char \<Rightarrow> int" where
  "digit_value c = int (of_char c) - 48"

definition py_strip :: "string \<Rightarrow> string" where
  "py_strip s = rev (dropWhile py_isspace (rev (dropWhile py_isspace s)))"

text \<open>
  The digit scan of \<^verbatim>\<open>int(str)\<close> in base 10: digits, with single underscores allowed
  between two digits. \<open>prev\<close> tells whether the previous character was an underscore,
  \<open>n\<close> counts the digits read and \<open>acc\<close> is the value read so far.
\<close>

fun scan_digits :: "string \<Rightarrow> bool \<Rightarrow> nat \<Rightarrow> int \<Rightarrow> (nat \<times> int) option" where
  "scan_digits [] prev n acc = (if prev then None else Some (n, acc))"
| "scan_digits (c # cs) prev n acc =
     (if c = CHR ''_'' then (if prev then None else scan_digits cs True n acc)
      else if py_isdigit c then scan_digits cs False (Suc n) (acc * 10 + digit_value c)
      else None)"

definition int_max_str_digits :: nat where
  \<comment> \<open>the interpreter's default limit on the digits of a converted string\<close>
  "int_max_str_digits = 4300"

definition py_int :: "string \<Rightarrow> error + int" where
  \<comment> \<open>\<^verbatim>\<open>int(s)\<close> for a \<^verbatim>\<open>str\<close>: surrounding whitespace, an optional sign, then the digits\<close>
  "py_int s =
     (let t = py_strip s;
          neg = (t \<noteq> [] \<and> hd t = CHR ''-'');
          body = (if t \<noteq> [] \<and> (hd t = CHR ''-'' \<or> hd t = CHR ''+'') then tl t else t)
      in if body = [] \<or> hd body = CHR ''_'' then Inl ValueError
         else (case scan_digits body False 0 0 of
                 None \<Rightarrow> Inl ValueError
               | Some (n, v) \<Rightarrow>
                   if n > int_max_str_digits then Inl ValueError
                   else Inr (if neg then - v else v)))"


definition py_bool :: "string \<Rightarrow> bool" where
  \<comment> \<open>\<^verbatim>\<open>bool(s)\<close> for a \<^verbatim>\<open>str\<close>: true unless the string is empty\<close>
  "py_bool s = (length s \<noteq> 0)"

definition env_int :: "environ \<Rightarrow> string \<Rightarrow> int \<Rightarrow> error + int" where
  \<comment> \<open>\<^verbatim>\<open>int(os.environ.get(name, d))\<close>, where \<open>d\<close> is already a number\<close>
  "env_int env name d = (case env name of None \<Rightarrow> Inr d | Some s \<Rightarrow> py_int s)"

definition env_bool :: "environ \<Rightarrow> string \<Rightarrow> bool" where
  \<comment> \<open>\<^verbatim>\<open>bool(os.environ.get(name, 0))\<close>; \<^verbatim>\<open>bool(0)\<close> is \<^verbatim>\<open>False\<close>\<close>
  "env_bool env name = (case env name of None \<Rightarrow> False | Some s \<Rightarrow> py_bool s)"

section \<open>The module constants\<close>

definition DEFAULT_SUBMIT_TIMEOUT_S :: "environ \<Rightarrow> error + int" where
  "DEFAULT_SUBMIT_TIMEOUT_S env = env_int env ''RAY_CGRAPH_submit_timeout'' 10"

definition DEFAULT_GET_TIMEOUT_S :: "environ \<Rightarrow> error + int" where
  "DEFAULT_GET_TIMEOUT_S env = env_int env ''RAY_CGRAPH_get_timeout'' 10"

definition DEFAULT_TEARDOWN_TIMEOUT_S :: "environ \<Rightarrow> error + int" where
  "DEFAULT_TEARDOWN_TIMEOUT_S env = env_int env ''RAY_CGRAPH_teardown_timeout'' 30"

definition DEFAULT_BUFFER_SIZE_BYTES :: "environ \<Rightarrow> error + int" where
  \<comment> \<open>the fallback is the float \<^verbatim>\<open>1e6\<close>, and \<^verbatim>\<open>int(1e6)\<close> is 1000000\<close>
  "DEFAULT_BUFFER_SIZE_BYTES env = env_int env ''RAY_CGRAPH_buffer_size_bytes'' 1000000"

definition DEFAULT_ASYNCIO_MAX_QUEUE_SIZE :: "environ \<Rightarrow> error + int" where
  "DEFAULT_ASYNCIO_MAX_QUEUE_SIZE env = env_int env ''RAY_CGRAPH_asyncio_max_queue_size'' 0"

definition DEFAULT_MAX_BUFFERED_RESULTS :: "environ \<Rightarrow> error + int" where
  "DEFAULT_MAX_BUFFERED_RESULTS env = env_int env ''RAY_CGRAPH_max_buffered_results'' 1000"

definition DEFAULT_MAX_INFLIGHT_EXECUTIONS :: "environ \<Rightarrow> error + int" where
  "DEFAULT_MAX_INFLIGHT_EXECUTIONS env = env_int env ''RAY_CGRAPH_max_inflight_executions'' 10"

definition DEFAULT_OVERLAP_GPU_COMMUNICATION :: "environ \<Rightarrow> bool" where
  "DEFAULT_OVERLAP_GPU_COMMUNICATION env = env_bool env ''RAY_CGRAPH_overlap_gpu_communication''"

section \<open>The dataclass and the process state\<close>

record DAGContext =
  submit_timeout :: int
  get_timeout :: int
  teardown_timeout :: int
  buffer_size_bytes :: int
  asyncio_max_queue_size :: int
  max_buffered_results :: int
  max_inflight_executions :: int
  overlap_gpu_communication :: bool

text \<open>
  Objects live in a heap and a reference is an index into it, so that two references to
  one object can be told from two equal objects. \<open>field_defaults\<close> holds the defaults of
  the dataclass fields, which are bound when the class statement runs, and
  \<open>default_context\<close> is the module global \<^verbatim>\<open>_default_context\<close>.
\<close>

type_synonym ref = nat

record process =
  os_environ :: environ
  field_defaults :: DAGContext
  heap :: "DAGContext list"
  default_context :: "ref option"

definition bind :: "error + 'a \<Rightarrow> ('a \<Rightarrow> error + 'b) \<Rightarrow> error + 'b" where
  "bind m f = (case m of Inl e \<Rightarrow> Inl e | Inr x \<Rightarrow> f x)"

definition load_module :: "environ \<Rightarrow> error + process" where
  \<comment> \<open>running the module body: the constants in source order, then the class statement;
      the first failing \<^verbatim>\<open>int\<close> aborts the import\<close>
  "load_module env =
     bind (DEFAULT_SUBMIT_TIMEOUT_S env) (\<lambda>c1.
     bind (DEFAULT_GET_TIMEOUT_S env) (\<lambda>c2.
     bind (DEFAULT_TEARDOWN_TIMEOUT_S env) (\<lambda>c3.
     bind (DEFAULT_BUFFER_SIZE_BYTES env) (\<lambda>c4.
     bind (DEFAULT_ASYNCIO_MAX_QUEUE_SIZE env) (\<lambda>c5.
     bind (DEFAULT_MAX_BUFFERED_RESULTS env) (\<lambda>c6.
     bind (DEFAULT_MAX_INFLIGHT_EXECUTIONS env) (\<lambda>c7.
       Inr \<lparr> os_environ = env,
             field_defaults =
               \<lparr> submit_timeout = c1, get_timeout = c2, teardown_timeout = c3,
                 buffer_size_bytes = c4, asyncio_max_queue_size = c5,
                 max_buffered_results = c6, max_inflight_executions = c7,
                 overlap_gpu_communication = DEFAULT_OVERLAP_GPU_COMMUNICATION env \<rparr>,
             heap = [],
             default_context = None \<rparr>)))))))"

text \<open>
  The generated \<^verbatim>\<open>__init__\<close> takes each field as an optional argument and falls back on
  the field's default.
\<close>

record init_args =
  arg_submit_timeout :: "int option"
  arg_get_timeout :: "int option"
  arg_teardown_timeout :: "int option"
  arg_buffer_size_bytes :: "int option"
  arg_asyncio_max_queue_size :: "int option"
  arg_max_buffered_results :: "int option"
  arg_max_inflight_executions :: "int option"
  arg_overlap_gpu_communication :: "bool option"

definition no_args :: init_args where
  "no_args = \<lparr> arg_submit_timeout = None, arg_get_timeout = None,
               arg_teardown_timeout = None, arg_buffer_size_bytes = None,
               arg_asyncio_max_queue_size = None, arg_max_buffered_results = None,
               arg_max_inflight_executions = None, arg_overlap_gpu_communication = None \<rparr>"

definition or_default :: "'a option \<Rightarrow> 'a \<Rightarrow> 'a" where
  "or_default arg d = (case arg of None \<Rightarrow> d | Some v \<Rightarrow> v)"

definition init_fields :: "init_args \<Rightarrow> DAGContext \<Rightarrow> DAGContext" where
  "init_fields a d =
     \<lparr> submit_timeout = or_default (arg_submit_timeout a) (submit_timeout d),
       get_timeout = or_default (arg_get_timeout a) (get_timeout d),
       teardown_timeout = or_default (arg_teardown_timeout a) (teardown_timeout d),
       buffer_size_bytes = or_default (arg_buffer_size_bytes a) (buffer_size_bytes d),
       asyncio_max_queue_size =
         or_default (arg_asyncio_max_queue_size a) (asyncio_max_queue_size d),
       max_buffered_results = or_default (arg_max_buffered_results a) (max_buffered_results d),
       max_inflight_executions =
         or_default (arg_max_inflight_executions a) (max_inflight_executions d),
       overlap_gpu_communication =
         or_default (arg_overlap_gpu_communication a) (overlap_gpu_communication d) \<rparr>"

definition new_DAGContext :: "init_args \<Rightarrow> process \<Rightarrow> ref \<times> process" where
  \<comment> \<open>\<^verbatim>\<open>DAGContext(...)\<close>: a new object at a fresh reference\<close>
  "new_DAGContext a p =
     (length (heap p), p\<lparr> heap := heap p @ [init_fields a (field_defaults p)] \<rparr>)"

text \<open>
  \<^verbatim>\<open>DAGContext.get_current()\<close> as one thread runs it: it returns a reference and the new
  process state. The \<^verbatim>\<open>with _context_lock\<close> around the body takes the lock on entry and
  gives it back on exit, so between two calls of a single thread the lock is free; the
  lock is part of the model of several threads below, where \<open>single_thread_fresh\<close> and
  \<open>single_thread_existing\<close> show that a thread running alone computes \<open>get_current\<close>.
\<close>

definition get_current :: "process \<Rightarrow> ref \<times> process" where
  "get_current p =
     (case default_context p of
        None \<Rightarrow>
          (let (r, p') = new_DAGContext no_args p
           in (r, p'\<lparr> default_context := Some r \<rparr>))
      | Some r \<Rightarrow> (r, p))"

definition deref :: "ref \<Rightarrow> process \<Rightarrow> DAGContext option" where
  "deref r p = (if r < length (heap p) then Some (heap p ! r) else None)"

text \<open>
  Attribute assignment \<^verbatim>\<open>obj.F = v\<close> with \<open>v\<close> of the declared type of \<open>F\<close>, and
  attribute reads. The dataclass is not frozen and defines no \<^verbatim>\<open>__setattr__\<close>, so an
  assignment stores the value and nothing else.
\<close>

datatype field =
    F_submit_timeout | F_get_timeout | F_teardown_timeout | F_buffer_size_bytes
  | F_asyncio_max_queue_size | F_max_buffered_results | F_max_inflight_executions
  | F_overlap_gpu_communication

datatype val = IntV int | BoolV bool

datatype assign =
    Set_submit_timeout int | Set_get_timeout int | Set_teardown_timeout int
  | Set_buffer_size_bytes int | Set_asyncio_max_queue_size int
  | Set_max_buffered_results int | Set_max_inflight_executions int
  | Set_overlap_gpu_communication bool

fun field_of :: "assign \<Rightarrow> field" where
  "field_of (Set_submit_timeout v) = F_submit_timeout"
| "field_of (Set_get_timeout v) = F_get_timeout"
| "field_of (Set_teardown_timeout v) = F_teardown_timeout"
| "field_of (Set_buffer_size_bytes v) = F_buffer_size_bytes"
| "field_of (Set_asyncio_max_queue_size v) = F_asyncio_max_queue_size"
| "field_of (Set_max_buffered_results v) = F_max_buffered_results"
| "field_of (Set_max_inflight_executions v) = F_max_inflight_executions"
| "field_of (Set_overlap_gpu_communication v) = F_overlap_gpu_communication"

fun value_of :: "assign \<Rightarrow> val" where
  "value_of (Set_submit_timeout v) = IntV v"
| "value_of (Set_get_timeout v) = IntV v"
| "value_of (Set_teardown_timeout v) = IntV v"
| "value_of (Set_buffer_size_bytes v) = IntV v"
| "value_of (Set_asyncio_max_queue_size v) = IntV v"
| "value_of (Set_max_buffered_results v) = IntV v"
| "value_of (Set_max_inflight_executions v) = IntV v"
| "value_of (Set_overlap_gpu_communication v) = BoolV v"

fun getattr :: "field \<Rightarrow> DAGContext \<Rightarrow> val" where
  "getattr F_submit_timeout c = IntV (submit_timeout c)"
| "getattr F_get_timeout c = IntV (get_timeout c)"
| "getattr F_teardown_timeout c = IntV (teardown_timeout c)"
| "getattr F_buffer_size_bytes c = IntV (buffer_size_bytes c)"
| "getattr F_asyncio_max_queue_size c = IntV (asyncio_max_queue_size c)"
| "getattr F_max_buffered_results c = IntV (max_buffered_results c)"
| "getattr F_max_inflight_executions c = IntV (max_inflight_executions c)"
| "getattr F_overlap_gpu_communication c = BoolV (overlap_gpu_communication c)"

fun store :: "assign \<Rightarrow> DAGContext \<Rightarrow> DAGContext" where
  "store (Set_submit_timeout v) c = c\<lparr> submit_timeout := v \<rparr>"
| "store (Set_get_timeout v) c = c\<lparr> get_timeout := v \<rparr>"
| "store (Set_teardown_timeout v) c = c\<lparr> teardown_timeout := v \<rparr>"
| "store (Set_buffer_size_bytes v) c = c\<lparr> buffer_size_bytes := v \<rparr>"
| "store (Set_asyncio_max_queue_size v) c = c\<lparr> asyncio_max_queue_size := v \<rparr>"
| "store (Set_max_buffered_results v) c = c\<lparr> max_buffered_results := v \<rparr>"
| "store (Set_max_inflight_executions v) c = c\<lparr> max_inflight_executions := v \<rparr>"
| "store (Set_overlap_gpu_communication v) c = c\<lparr> overlap_gpu_communication := v \<rparr>"

definition setattr :: "ref \<Rightarrow> assign \<Rightarrow> process \<Rightarrow> process" where
  \<comment> \<open>assignment through a reference; a Python reference always points to a live
      object, so \<open>r\<close> is in range wherever the program can run this\<close>
  "setattr r a p = p\<lparr> heap := (heap p)[r := store a (heap p ! r)] \<rparr>"

definition putenv :: "string \<Rightarrow> string \<Rightarrow> process \<Rightarrow> process" where
  \<comment> \<open>\<^verbatim>\<open>os.environ[name] = value\<close>\<close>
  "putenv name v p = p\<lparr> os_environ := (os_environ p)(name \<mapsto> v) \<rparr>"

definition unsetenv :: "string \<Rightarrow> process \<Rightarrow> process" where
  \<comment> \<open>\<^verbatim>\<open>os.environ.pop(name, None)\<close>\<close>
  "unsetenv name p = p\<lparr> os_environ := (os_environ p)(name := None) \<rparr>"

text \<open>
  What a single-threaded client of the module can do after the import, and a run of such
  operations from a process state.
\<close>

datatype op =
    Get_current
  | New init_args
  | Setattr ref assign
  | Putenv string string
  | Unsetenv string

fun exec :: "op \<Rightarrow> process \<Rightarrow> process" where
  "exec Get_current p = snd (get_current p)"
| "exec (New a) p = snd (new_DAGContext a p)"
| "exec (Setattr r a) p = setattr r a p"
| "exec (Putenv name v) p = putenv name v p"
| "exec (Unsetenv name) p = unsetenv name p"

definition run :: "op list \<Rightarrow> process \<Rightarrow> process" where
  "run ops p = fold exec ops p"


definition wf :: "process \<Rightarrow> bool" where
  \<comment> \<open>the module global, when set, refers to an object of the heap; this holds after
      the import and is kept by every operation (\<open>wf_load_module\<close>, \<open>wf_run\<close>)\<close>
  "wf p = (case default_context p of None \<Rightarrow> True | Some r \<Rightarrow> r < length (heap p))"

definition run_process :: "environ \<Rightarrow> op list \<Rightarrow> error + DAGContext option" where
  \<comment> \<open>a whole process: import the module under \<open>env\<close>, perform \<open>ops\<close>, then call
      \<^verbatim>\<open>DAGContext.get_current()\<close> and read the object it returns\<close>
  "run_process env ops =
     bind (load_module env)
       (\<lambda>p. let (r, p') = get_current (run ops p) in Inr (deref r p'))"

definition int_override_names :: "string list" where
  "int_override_names =
     [''RAY_CGRAPH_submit_timeout'', ''RAY_CGRAPH_get_timeout'',
      ''RAY_CGRAPH_teardown_timeout'', ''RAY_CGRAPH_buffer_size_bytes'',
      ''RAY_CGRAPH_asyncio_max_queue_size'', ''RAY_CGRAPH_max_buffered_results'',
      ''RAY_CGRAPH_max_inflight_executions'']"


definition compiled_defaults :: DAGContext where
  \<comment> \<open>the fallback values written in the module constants\<close>
  "compiled_defaults =
     \<lparr> submit_timeout = 10, get_timeout = 10, teardown_timeout = 30,
       buffer_size_bytes = 1000000, asyncio_max_queue_size = 0,
       max_buffered_results = 1000, max_inflight_executions = 10,
       overlap_gpu_communication = False \<rparr>"

section \<open>Threads calling \<^verbatim>\<open>get_current()\<close>\<close>

text \<open>
  Threads are interleaved at the level of the statements of \<^verbatim>\<open>get_current()\<close>. Each
  thread has a position in the method; \<^verbatim>\<open>threading.Lock\<close> is a flag that \<^verbatim>\<open>with\<close> sets
  on entry, waiting while it is set, and clears on exit.
\<close>

datatype pc =
    At_acquire                \<comment> \<open>before \<^verbatim>\<open>with _context_lock:\<close>, waiting for the lock\<close>
  | At_test                   \<comment> \<open>lock held, before \<^verbatim>\<open>if _default_context is None\<close>\<close>
  | At_construct              \<comment> \<open>lock held, before the call \<^verbatim>\<open>DAGContext()\<close>\<close>
  | At_assign ref             \<comment> \<open>lock held, before storing the new reference in the global\<close>
  | At_return                 \<comment> \<open>lock held, before reading the global for \<^verbatim>\<open>return\<close>\<close>
  | At_release "ref option"   \<comment> \<open>lock held, leaving the \<^verbatim>\<open>with\<close> block with the value read\<close>
  | Returned "ref option"     \<comment> \<open>the call has returned this value\<close>

record system =
  proc :: process
  context_lock :: bool    \<comment> \<open>whether \<^verbatim>\<open>_context_lock\<close> is held\<close>
  threads :: "pc list"

definition goto :: "nat \<Rightarrow> pc \<Rightarrow> system \<Rightarrow> system" where
  "goto i l s = s\<lparr> threads := (threads s)[i := l] \<rparr>"

text \<open>
  One step of thread \<open>i\<close>. A thread at \<open>At_acquire\<close> can move only when the lock is free,
  and takes it; a thread that has returned does not move. Every read and every write of
  \<^verbatim>\<open>_default_context\<close> is a step of its own.
\<close>

definition thread_step :: "nat \<Rightarrow> system \<Rightarrow> system option" where
  "thread_step i s =
     (if i < length (threads s) then
        (case threads s ! i of
           At_acquire \<Rightarrow>
             if context_lock s then None
             else Some (goto i At_test (s\<lparr> context_lock := True \<rparr>))
         | At_test \<Rightarrow>
             Some (goto i (if default_context (proc s) = None then At_construct
                           else At_return) s)
         | At_construct \<Rightarrow>
             (let (r, p') = new_DAGContext no_args (proc s)
              in Some (goto i (At_assign r) (s\<lparr> proc := p' \<rparr>)))
         | At_assign r \<Rightarrow>
             Some (goto i At_return (s\<lparr> proc := (proc s)\<lparr> default_context := Some r \<rparr> \<rparr>))
         | At_return \<Rightarrow>
             Some (goto i (At_release (default_context (proc s))) s)
         | At_release v \<Rightarrow>
             Some (goto i (Returned v) (s\<lparr> context_lock := False \<rparr>))
         | Returned v \<Rightarrow> None)
      else None)"

text \<open>
  \<open>n\<close> threads, each about to call \<^verbatim>\<open>get_current()\<close>, and the states they can reach
  under any interleaving of their steps. \<open>run_schedule\<close> runs one given interleaving.
\<close>

definition spawn :: "nat \<Rightarrow> process \<Rightarrow> system" where
  "spawn n p = \<lparr> proc = p, context_lock = False, threads = replicate n At_acquire \<rparr>"

inductive reachable :: "system \<Rightarrow> system \<Rightarrow> bool" for s0 :: system where
  reachable_init: "reachable s0 s0"
| reachable_step: "reachable s0 s \<Longrightarrow> thread_step i s = Some s' \<Longrightarrow> reachable s0 s'"

fun run_schedule :: "nat list \<Rightarrow> system \<Rightarrow> system option" where
  "run_schedule [] s = Some s"
| "run_schedule (i # sched) s =
     (case thread_step i s of None \<Rightarrow> None | Some s' \<Rightarrow> run_schedule sched s')"

text \<open>
  \<open>in_critical\<close> holds of a thread inside the \<^verbatim>\<open>with\<close> block; \<open>remaining\<close> bounds
  the steps a thread still has to take, and \<open>work\<close> adds these up.
\<close>

fun in_critical :: "pc \<Rightarrow> bool" where
  "in_critical At_acquire = False"
| "in_critical (Returned v) = False"
| "in_critical _ = True"

fun remaining :: "pc \<Rightarrow> nat" where
  "remaining At_acquire = 6"
| "remaining At_test = 5"
| "remaining At_construct = 4"
| "remaining (At_assign r) = 3"
| "remaining At_return = 2"
| "remaining (At_release v) = 1"
| "remaining (Returned v) = 0"

definition work :: "system \<Rightarrow> nat" where
  "work s = sum_list (map remaining (threads s))"

text \<open>
  The invariant of the threads that start from a process \<open>p0\<close> with the global unset:
  what the position of the lock holder, and of a thread that has returned, says about
  the shared state.
\<close>

fun holder_ok :: "process \<Rightarrow> process \<Rightarrow> pc \<Rightarrow> bool" where
  "holder_ok p0 p At_test =
     (default_context p = None \<and> heap p = heap p0 \<or>
      default_context p = Some (length (heap p0)) \<and> heap p = heap p0 @ [field_defaults p0])"
| "holder_ok p0 p At_construct = (default_context p = None \<and> heap p = heap p0)"
| "holder_ok p0 p (At_assign r) =
     (r = length (heap p0) \<and> default_context p = None \<and>
      heap p = heap p0 @ [field_defaults p0])"
| "holder_ok p0 p At_return =
     (default_context p = Some (length (heap p0)) \<and> heap p = heap p0 @ [field_defaults p0])"
| "holder_ok p0 p (At_release v) =
     (v = Some (length (heap p0)) \<and> default_context p = Some (length (heap p0)) \<and>
      heap p = heap p0 @ [field_defaults p0])"
| "holder_ok p0 p _ = False"

fun returned_ok :: "process \<Rightarrow> process \<Rightarrow> pc \<Rightarrow> bool" where
  "returned_ok p0 p (Returned v) =
     (v = Some (length (heap p0)) \<and> default_context p = Some (length (heap p0)) \<and>
      heap p = heap p0 @ [field_defaults p0])"
| "returned_ok p0 p _ = True"

definition invariant :: "process \<Rightarrow> system \<Rightarrow> bool" where
  "invariant p0 s =
     (field_defaults (proc s) = field_defaults p0 \<and>
      list_all (returned_ok p0 (proc s)) (threads s) \<and>
      (case filter in_critical (threads s) of
         [] \<Rightarrow> \<not> context_lock s \<and> holder_ok p0 (proc s) At_test
       | [l] \<Rightarrow> context_lock s \<and> holder_ok p0 (proc s) l
       | _ \<Rightarrow> False))"

section \<open>Example states\<close>

definition example_process :: process where
  \<comment> \<open>the process right after an import with no override set\<close>
  "example_process =
     \<lparr> os_environ = Map.empty, field_defaults = compiled_defaults,
       heap = [], default_context = None \<rparr>"

definition example_singleton :: process where
  \<comment> \<open>the same process after its first \<^verbatim>\<open>get_current()\<close>\<close>
  "example_singleton =
     \<lparr> os_environ = Map.empty, field_defaults = compiled_defaults,
       heap = [compiled_defaults], default_context = Some 0 \<rparr>"



definition example_final :: system where
  "example_final =
     \<lparr> proc = example_singleton, context_lock = False,
       threads = [Returned (Some 0), Returned (Some 0)] \<rparr>"

definition example_midway :: system where
  "example_midway =
     \<lparr> proc = example_process\<lparr> heap := [compiled_defaults] \<rparr>, context_lock = True,
       threads = [At_acquire, At_assign 0] \<rparr>"

section \<open>Basic facts\<close>

lemmas module_constants_defs =
  DEFAULT_SUBMIT_TIMEOUT_S_def DEFAULT_GET_TIMEOUT_S_def DEFAULT_TEARDOWN_TIMEOUT_S_def
  DEFAULT_BUFFER_SIZE_BYTES_def DEFAULT_ASYNCIO_MAX_QUEUE_SIZE_def
  DEFAULT_MAX_BUFFERED_RESULTS_def DEFAULT_MAX_INFLIGHT_EXECUTIONS_def
  DEFAULT_OVERLAP_GPU_COMMUNICATION_def

lemma init_fields_no_args: "init_fields no_args d = d"
  by (simp add: init_fields_def no_args_def or_default_def)

lemma get_current_fresh:
  "default_context p = None \<Longrightarrow>
   get_current p =
     (length (heap p),
      p\<lparr> heap := heap p @ [field_defaults p], default_context := Some (length (heap p)) \<rparr>)"
  by (simp add: get_current_def new_DAGContext_def init_fields_no_args)

lemma get_current_existing: "default_context p = Some r \<Longrightarrow> get_current p = (r, p)"
  by (simp add: get_current_def)


lemma error_unique: "(e :: error) = ValueError"
  by (cases e) simp

lemma getattr_store: "getattr (field_of a) (store a c) = value_of a"
  by (cases a) simp_all

lemma getattr_store_other: "f \<noteq> field_of a \<Longrightarrow> getattr f (store a c) = getattr f c"
  by (cases a; cases f) simp_all

lemma deref_setattr:
  "r < length (heap p) \<Longrightarrow> deref r (setattr r a p) = Some (store a (heap p ! r))"
  by (simp add: deref_def setattr_def)

lemma deref_setattr_other:
  "q \<noteq> r \<Longrightarrow> deref q (setattr r a p) = deref q p"
  by (simp add: deref_def setattr_def)

lemma default_context_setattr [simp]: "default_context (setattr r a p) = default_context p"
  by (simp add: setattr_def)

lemma length_heap_setattr [simp]: "length (heap (setattr r a p)) = length (heap p)"
  by (simp add: setattr_def)

lemma get_current_wf:
  assumes "wf p" and "get_current p = (r, p')"
  shows "default_context p' = Some r \<and> r < length (heap p') \<and> wf p'"
proof (cases "default_context p")
  case None
  with assms(2) show ?thesis
    by (auto simp: get_current_fresh wf_def)
next
  case (Some q)
  with assms show ?thesis
    by (auto simp: get_current_existing wf_def)
qed

lemma wf_exec: "wf p \<Longrightarrow> wf (exec x p)"
proof (cases x)
  case Get_current
  assume "wf p"
  then show ?thesis
    using Get_current get_current_wf [of p "fst (get_current p)" "snd (get_current p)"]
    by simp
qed (auto simp: wf_def new_DAGContext_def setattr_def putenv_def unsetenv_def
         split: option.splits)

lemma wf_run: "wf p \<Longrightarrow> wf (run ops p)"
  unfolding run_def by (induction ops arbitrary: p) (simp_all add: wf_exec)

lemma load_module_shape:
  assumes "load_module env = Inr p"
  shows "os_environ p = env \<and> heap p = [] \<and> default_context p = None"
  using assms
  by (auto simp: load_module_def bind_def split: sum.splits)

lemma wf_load_module: "load_module env = Inr p \<Longrightarrow> wf p"
  by (simp add: wf_def load_module_shape)

lemma run_replicate_get_current:
  "default_context p = Some r \<Longrightarrow> run (replicate n Get_current) p = p"
  unfolding run_def by (induction n) (simp_all add: get_current_existing)

lemma example_process_loaded: "load_module Map.empty = Inr example_process"
  by (simp add: load_module_def bind_def env_int_def env_bool_def module_constants_defs
      compiled_defaults_def example_process_def)

lemma wf_example_process: "wf example_process"
  by (simp add: wf_def example_process_def)

lemma wf_example_singleton: "wf example_singleton"
  by (simp add: wf_def example_singleton_def)

lemma get_current_example_process: "get_current example_process = (0, example_singleton)"
  by (simp add: get_current_fresh example_process_def example_singleton_def)

lemma get_current_example_singleton: "get_current example_singleton = (0, example_singleton)"
  by (simp add: get_current_existing example_singleton_def)

lemma run_Nil [simp]: "run [] p = p"
  by (simp add: run_def)

lemma run_Cons [simp]: "run (x # xs) p = run xs (exec x p)"
  by (simp add: run_def)




lemmas py_int_defs =
  py_int_def py_strip_def py_isspace_def py_isdigit_def digit_value_def int_max_str_digits_def

lemma py_int_not_a_number: "py_int ''not_a_number'' = Inl ValueError"
  by (simp add: py_int_defs)


lemma py_int_misc: "py_int '' -1_000 '' = Inr (- 1000)" "py_int ''1e6'' = Inl ValueError"
  "py_int [] = Inl ValueError" "py_int ''+42'' = Inr 42" "py_int ''4__2'' = Inl ValueError"
  by (simp_all add: py_int_defs)

lemma load_module_fields:
  assumes "load_module env = Inr p"
  shows "DEFAULT_SUBMIT_TIMEOUT_S env = Inr (submit_timeout (field_defaults p))"
    and "DEFAULT_GET_TIMEOUT_S env = Inr (get_timeout (field_defaults p))"
    and "DEFAULT_TEARDOWN_TIMEOUT_S env = Inr (teardown_timeout (field_defaults p))"
    and "DEFAULT_BUFFER_SIZE_BYTES env = Inr (buffer_size_bytes (field_defaults p))"
    and "DEFAULT_ASYNCIO_MAX_QUEUE_SIZE env = Inr (asyncio_max_queue_size (field_defaults p))"
    and "DEFAULT_MAX_BUFFERED_RESULTS env = Inr (max_buffered_results (field_defaults p))"
    and "DEFAULT_MAX_INFLIGHT_EXECUTIONS env = Inr (max_inflight_executions (field_defaults p))"
    and "DEFAULT_OVERLAP_GPU_COMMUNICATION env = overlap_gpu_communication (field_defaults p)"
  using assms
  by (auto simp: load_module_def bind_def split: sum.splits)

lemma get_current_os_environ:
  "get_current (p\<lparr> os_environ := e \<rparr>) =
     (fst (get_current p), (snd (get_current p))\<lparr> os_environ := e \<rparr>)"
  by (cases "default_context p") (simp_all add: get_current_fresh get_current_existing)








lemma env_int_fails:
  "env k = Some s \<Longrightarrow> py_int s = Inl ValueError \<Longrightarrow> env_int env k d = Inl ValueError"
  by (simp add: env_int_def)

lemma int_override_names_cases:
  assumes "k \<in> set int_override_names"
  shows "k = ''RAY_CGRAPH_submit_timeout'' \<or> k = ''RAY_CGRAPH_get_timeout''
    \<or> k = ''RAY_CGRAPH_teardown_timeout'' \<or> k = ''RAY_CGRAPH_buffer_size_bytes''
    \<or> k = ''RAY_CGRAPH_asyncio_max_queue_size'' \<or> k = ''RAY_CGRAPH_max_buffered_results''
    \<or> k = ''RAY_CGRAPH_max_inflight_executions''"
  using assms unfolding int_override_names_def by simp






lemma overlap_flag_of_zero_is_true:
  "DEFAULT_OVERLAP_GPU_COMMUNICATION [''RAY_CGRAPH_overlap_gpu_communication'' \<mapsto> ''0'']
     = True"
  "DEFAULT_OVERLAP_GPU_COMMUNICATION [''RAY_CGRAPH_overlap_gpu_communication'' \<mapsto> ''false'']
     = True"
  "DEFAULT_OVERLAP_GPU_COMMUNICATION [''RAY_CGRAPH_overlap_gpu_communication'' \<mapsto> []]
     = False"
  by (simp_all add: DEFAULT_OVERLAP_GPU_COMMUNICATION_def env_bool_def py_bool_def)

section \<open>Defaults without overrides\<close>



section \<open>One shared instance\<close>

text \<open>
  C4. Two calls of \<^verbatim>\<open>get_current()\<close> with no reset between them return the same
  reference: the second call on the state left by the first returns it again, and after
  assigning a value to any field through the first reference, a further call returns
  the same reference and reading that field through it gives the assigned value. The
  example of the docstring, \<^verbatim>\<open>buffer_size_bytes = 500\<close>, is the witness.
\<close>

theorem same_instance_mutation_visible:
  assumes "wf p"
    and "get_current p = (r1, p1)"
    and "get_current (setattr r1 a p1) = (r2, p2)"
  shows "get_current p1 = (r1, p1) \<and> r2 = r1 \<and>
         (\<exists>c. deref r2 p2 = Some c \<and> getattr (field_of a) c = value_of a)"
proof -
  from assms(1,2) have dc: "default_context p1 = Some r1" and lt: "r1 < length (heap p1)"
    using get_current_wf by blast+
  have again: "get_current p1 = (r1, p1)"
    using dc by (rule get_current_existing)
  have "get_current (setattr r1 a p1) = (r1, setattr r1 a p1)"
    using dc by (simp add: get_current_existing)
  with assms(3) have eq: "r2 = r1" "p2 = setattr r1 a p1" by auto
  have "deref r1 (setattr r1 a p1) = Some (store a (heap p1 ! r1))"
    using lt by (rule deref_setattr)
  with eq again show ?thesis
    by (simp add: getattr_store)
qed

theorem same_instance_mutation_visible_witness:
  "wf example_process \<and>
   get_current example_process = (0, example_singleton) \<and>
   get_current (setattr 0 (Set_buffer_size_bytes 500) example_singleton) =
     (0, setattr 0 (Set_buffer_size_bytes 500) example_singleton) \<and>
   map_option buffer_size_bytes
     (deref 0 (setattr 0 (Set_buffer_size_bytes 500) example_singleton)) = Some 500"
proof -
  let ?p2 = "setattr 0 (Set_buffer_size_bytes 500) example_singleton"
  have h1: "wf example_process" by (rule wf_example_process)
  have h2: "get_current example_process = (0, example_singleton)"
    by (rule get_current_example_process)
  have h3: "get_current ?p2 = (0, ?p2)"
    by (simp add: get_current_existing example_singleton_def)
  from same_instance_mutation_visible [OF h1 h2 h3]
  obtain c where "deref 0 ?p2 = Some c"
    and "getattr (field_of (Set_buffer_size_bytes 500)) c = value_of (Set_buffer_size_bytes 500)"
    by blast
  then have "map_option buffer_size_bytes (deref 0 ?p2) = Some 500" by simp
  with h1 h2 h3 show ?thesis by blast
qed

section \<open>Assignment without validation\<close>

text \<open>
  C8. Assigning a value of the declared type to a field of the object returned by
  \<^verbatim>\<open>get_current()\<close> always goes through (\<open>setattr\<close> has no error result) and is not
  checked: reading the field back gives exactly the value, whatever it is, and every
  other field keeps its value. The witness stores a negative timeout.
\<close>

theorem assignment_unvalidated:
  assumes "wf p" and "get_current p = (r, p1)"
  shows "\<exists>c0. deref r p1 = Some c0 \<and>
           deref r (setattr r a p1) = Some (store a c0) \<and>
           getattr (field_of a) (store a c0) = value_of a \<and>
           (\<forall>f. f \<noteq> field_of a \<longrightarrow> getattr f (store a c0) = getattr f c0)"
proof -
  from assms have lt: "r < length (heap p1)"
    using get_current_wf by blast
  then have "deref r p1 = Some (heap p1 ! r)"
    by (simp add: deref_def)
  moreover have "deref r (setattr r a p1) = Some (store a (heap p1 ! r))"
    using lt by (rule deref_setattr)
  ultimately show ?thesis
    by (simp add: getattr_store getattr_store_other)
qed

theorem assignment_unvalidated_witness:
  "wf example_process \<and>
   get_current example_process = (0, example_singleton) \<and>
   deref 0 example_singleton = Some compiled_defaults \<and>
   deref 0 (setattr 0 (Set_submit_timeout (- 5)) example_singleton) =
     Some (compiled_defaults\<lparr> submit_timeout := - 5 \<rparr>) \<and>
   getattr F_submit_timeout (compiled_defaults\<lparr> submit_timeout := - 5 \<rparr>) = IntV (- 5)"
proof -
  have h1: "wf example_process" by (rule wf_example_process)
  have h2: "get_current example_process = (0, example_singleton)"
    by (rule get_current_example_process)
  have d: "deref 0 example_singleton = Some compiled_defaults"
    by (simp add: example_singleton_def deref_def)
  from assignment_unvalidated [OF h1 h2, of "Set_submit_timeout (- 5)"] d
  have "deref 0 (setattr 0 (Set_submit_timeout (- 5)) example_singleton) =
          Some (compiled_defaults\<lparr> submit_timeout := - 5 \<rparr>)"
    by auto
  moreover have "getattr F_submit_timeout (compiled_defaults\<lparr> submit_timeout := - 5 \<rparr>)
                   = IntV (- 5)"
    by simp
  ultimately show ?thesis using h1 h2 d by blast
qed

section \<open>Later calls only read\<close>

text \<open>
  C9. Once \<^verbatim>\<open>_default_context\<close> is set, a call of \<^verbatim>\<open>get_current()\<close>, and any number
  of them, returns the stored reference and leaves the whole process state as it was:
  no field of the singleton changes and the singleton is not replaced. A call that finds
  \<^verbatim>\<open>_default_context\<close> unset does change the state: it adds one object, built from the
  field defaults, and stores its reference in \<^verbatim>\<open>_default_context\<close>.
\<close>

theorem later_calls_are_pure_reads:
  "(default_context p = Some r \<longrightarrow>
      get_current p = (r, p) \<and> run (replicate n Get_current) p = p) \<and>
   (default_context p = None \<longrightarrow>
      snd (get_current p) \<noteq> p \<and>
      snd (get_current p) =
        p\<lparr> heap := heap p @ [field_defaults p],
           default_context := Some (fst (get_current p)) \<rparr>)"
proof (intro conjI impI)
  assume "default_context p = Some r"
  then show "get_current p = (r, p)" by (rule get_current_existing)
next
  assume "default_context p = Some r"
  then show "run (replicate n Get_current) p = p" by (rule run_replicate_get_current)
next
  assume n: "default_context p = None"
  have "default_context (snd (get_current p)) \<noteq> default_context p"
    using n by (simp add: get_current_fresh)
  then show "snd (get_current p) \<noteq> p" by auto
next
  assume "default_context p = None"
  then show "snd (get_current p) =
        p\<lparr> heap := heap p @ [field_defaults p],
           default_context := Some (fst (get_current p)) \<rparr>"
    by (simp add: get_current_fresh)
qed

theorem later_calls_are_pure_reads_witness:
  "default_context example_singleton = Some 0 \<and>
   get_current example_singleton = (0, example_singleton) \<and>
   run (replicate 3 Get_current) example_singleton = example_singleton \<and>
   default_context example_process = None \<and>
   snd (get_current example_process) \<noteq> example_process \<and>
   snd (get_current example_process) = example_singleton"
proof -
  have h1: "default_context example_singleton = Some 0"
    by (simp add: example_singleton_def)
  have h2: "default_context example_process = None"
    by (simp add: example_process_def)
  from later_calls_are_pure_reads [of example_singleton 0 3] h1
  have a: "get_current example_singleton = (0, example_singleton) \<and>
           run (replicate 3 Get_current) example_singleton = example_singleton"
    by blast
  from later_calls_are_pure_reads [of example_process 0 3] h2
  have b: "snd (get_current example_process) \<noteq> example_process"
    by blast
  have c: "snd (get_current example_process) = example_singleton"
    by (simp add: get_current_example_process)
  from h1 h2 a b c show ?thesis by blast
qed

section \<open>Direct construction\<close>

text \<open>
  C10. \<^verbatim>\<open>DAGContext(...)\<close> can be called directly with any arguments; each field takes
  its argument or else its default. The new object is not installed as the singleton and
  no existing object changes: if the singleton exists, a later \<^verbatim>\<open>get_current()\<close>
  returns it, a different reference with unchanged fields; if it does not, a later
  \<^verbatim>\<open>get_current()\<close> builds a fresh object from the defaults, again not the one
  constructed directly.
\<close>

theorem direct_construction_is_separate:
  assumes "wf p" and "new_DAGContext a p = (r, p1)"
  shows "default_context p1 = default_context p \<and>
         deref r p1 = Some (init_fields a (field_defaults p)) \<and>
         (\<forall>q. q < length (heap p) \<longrightarrow> deref q p1 = deref q p) \<and>
         (\<forall>s. default_context p = Some s \<longrightarrow>
              get_current p1 = (s, p1) \<and> s \<noteq> r \<and> deref s p1 = deref s p) \<and>
         (default_context p = None \<longrightarrow>
            (\<exists>s p2. get_current p1 = (s, p2) \<and> s \<noteq> r \<and>
                    deref s p2 = Some (field_defaults p) \<and> deref r p2 = deref r p1))"
proof -
  from assms(2) have r: "r = length (heap p)"
    and p1: "p1 = p\<lparr> heap := heap p @ [init_fields a (field_defaults p)] \<rparr>"
    by (auto simp: new_DAGContext_def)
  have 1: "default_context p1 = default_context p" by (simp add: p1)
  have 2: "deref r p1 = Some (init_fields a (field_defaults p))"
    by (simp add: p1 r deref_def)
  have 3: "\<forall>q. q < length (heap p) \<longrightarrow> deref q p1 = deref q p"
    by (simp add: p1 deref_def nth_append)
  have 4: "\<forall>s. default_context p = Some s \<longrightarrow>
              get_current p1 = (s, p1) \<and> s \<noteq> r \<and> deref s p1 = deref s p"
  proof (intro allI impI)
    fix s assume s: "default_context p = Some s"
    with assms(1) have lt: "s < length (heap p)" by (simp add: wf_def)
    have "get_current p1 = (s, p1)" using s 1 by (simp add: get_current_existing)
    with lt 3 r show "get_current p1 = (s, p1) \<and> s \<noteq> r \<and> deref s p1 = deref s p"
      by simp
  qed
  have 5: "default_context p = None \<longrightarrow>
            (\<exists>s p2. get_current p1 = (s, p2) \<and> s \<noteq> r \<and>
                    deref s p2 = Some (field_defaults p) \<and> deref r p2 = deref r p1)"
  proof
    assume "default_context p = None"
    then have "default_context p1 = None" by (simp add: 1)
    then have "get_current p1 =
        (length (heap p1),
         p1\<lparr> heap := heap p1 @ [field_defaults p1],
             default_context := Some (length (heap p1)) \<rparr>)"
      by (rule get_current_fresh)
    then show "\<exists>s p2. get_current p1 = (s, p2) \<and> s \<noteq> r \<and>
                    deref s p2 = Some (field_defaults p) \<and> deref r p2 = deref r p1"
      by (simp add: p1 r deref_def nth_append)
  qed
  from 1 2 3 4 5 show ?thesis by blast
qed

theorem direct_construction_is_separate_witness:
  "wf example_singleton \<and>
   new_DAGContext (no_args\<lparr> arg_get_timeout := Some 99 \<rparr>) example_singleton
     = (1, example_singleton\<lparr> heap := [compiled_defaults,
                                         compiled_defaults\<lparr> get_timeout := 99 \<rparr>] \<rparr>) \<and>
   default_context example_singleton = Some 0 \<and>
   get_current (example_singleton\<lparr> heap := [compiled_defaults,
                                         compiled_defaults\<lparr> get_timeout := 99 \<rparr>] \<rparr>)
     = (0, example_singleton\<lparr> heap := [compiled_defaults,
                                         compiled_defaults\<lparr> get_timeout := 99 \<rparr>] \<rparr>) \<and>
   deref 0 (example_singleton\<lparr> heap := [compiled_defaults,
                                         compiled_defaults\<lparr> get_timeout := 99 \<rparr>] \<rparr>)
     = Some compiled_defaults \<and>
   wf example_process \<and>
   new_DAGContext (no_args\<lparr> arg_get_timeout := Some 99 \<rparr>) example_process
     = (0, example_process\<lparr> heap := [compiled_defaults\<lparr> get_timeout := 99 \<rparr>] \<rparr>) \<and>
   default_context example_process = None \<and>
   fst (get_current (example_process\<lparr> heap := [compiled_defaults\<lparr> get_timeout := 99 \<rparr>] \<rparr>))
     = 1 \<and>
   deref 1 (snd (get_current
       (example_process\<lparr> heap := [compiled_defaults\<lparr> get_timeout := 99 \<rparr>] \<rparr>)))
     = Some compiled_defaults \<and>
   deref 0 (snd (get_current
       (example_process\<lparr> heap := [compiled_defaults\<lparr> get_timeout := 99 \<rparr>] \<rparr>)))
     = Some (compiled_defaults\<lparr> get_timeout := 99 \<rparr>)"
proof -
  let ?a = "no_args\<lparr> arg_get_timeout := Some 99 \<rparr>"
  let ?q = "example_singleton\<lparr> heap := [compiled_defaults,
                                         compiled_defaults\<lparr> get_timeout := 99 \<rparr>] \<rparr>"
  let ?u = "example_process\<lparr> heap := [compiled_defaults\<lparr> get_timeout := 99 \<rparr>] \<rparr>"
  have h1: "wf example_singleton" by (rule wf_example_singleton)
  have h2: "new_DAGContext ?a example_singleton = (1, ?q)"
    by (simp add: new_DAGContext_def example_singleton_def init_fields_def no_args_def
        or_default_def compiled_defaults_def)
  have h3: "default_context example_singleton = Some 0"
    by (simp add: example_singleton_def)
  have d0: "deref 0 example_singleton = Some compiled_defaults"
    by (simp add: example_singleton_def deref_def)
  from direct_construction_is_separate [OF h1 h2] h3
  have "get_current ?q = (0, ?q) \<and> deref 0 ?q = deref 0 example_singleton"
    by blast
  with d0 have a: "get_current ?q = (0, ?q) \<and> deref 0 ?q = Some compiled_defaults"
    by simp
  have k1: "wf example_process" by (rule wf_example_process)
  have k2: "new_DAGContext ?a example_process = (0, ?u)"
    by (simp add: new_DAGContext_def example_process_def init_fields_def no_args_def
        or_default_def compiled_defaults_def)
  have k3: "default_context example_process = None"
    by (simp add: example_process_def)
  have fd: "field_defaults example_process = compiled_defaults"
    by (simp add: example_process_def)
  have d1: "deref 0 ?u = Some (compiled_defaults\<lparr> get_timeout := 99 \<rparr>)"
    by (simp add: deref_def)
  from direct_construction_is_separate [OF k1 k2] k3
  obtain s p2 where g: "get_current ?u = (s, p2)" and ne: "s \<noteq> 0"
    and ds: "deref s p2 = Some (field_defaults example_process)"
    and dr: "deref 0 p2 = deref 0 ?u"
    by blast
  have "fst (get_current ?u) = 1"
    by (simp add: get_current_fresh example_process_def)
  with g have s: "s = 1" by simp
  from g s ds dr d1 fd
  have b: "fst (get_current ?u) = 1 \<and>
           deref 1 (snd (get_current ?u)) = Some compiled_defaults \<and>
           deref 0 (snd (get_current ?u)) = Some (compiled_defaults\<lparr> get_timeout := 99 \<rparr>)"
    by simp
  from h1 h2 h3 a k1 k2 k3 b show ?thesis by blast
qed

section \<open>The lifecycle of the singleton\<close>



section \<open>Overrides are resolved when the module is imported\<close>




section \<open>An override that is not an integer\<close>

text \<open>
  \<^verbatim>\<open>get_current()\<close> has no failing path. With an unparsable override set after the
  import, the first call returns normally and the field holds the compiled-in default;
  with the override set before the import, it is the import that fails, with the
  \<^verbatim>\<open>ValueError\<close> of \<^verbatim>\<open>int\<close>.
\<close>

theorem unparsable_override_counterexample:
  "py_int ''not_a_number'' = Inl ValueError \<and>
   os_environ (run [Putenv ''RAY_CGRAPH_submit_timeout'' ''not_a_number''] example_process)
     ''RAY_CGRAPH_submit_timeout'' = Some ''not_a_number'' \<and>
   load_module Map.empty = Inr example_process \<and>
   map_sum id (map_option submit_timeout)
     (run_process Map.empty [Putenv ''RAY_CGRAPH_submit_timeout'' ''not_a_number''])
     = Inr (Some 10) \<and>
   load_module [''RAY_CGRAPH_submit_timeout'' \<mapsto> ''not_a_number''] = Inl ValueError"
proof -
  have "os_environ (run [Putenv ''RAY_CGRAPH_submit_timeout'' ''not_a_number'']
          example_process) ''RAY_CGRAPH_submit_timeout'' = Some ''not_a_number''"
    by (simp add: putenv_def)
  moreover have "map_sum id (map_option submit_timeout)
     (run_process Map.empty [Putenv ''RAY_CGRAPH_submit_timeout'' ''not_a_number''])
     = Inr (Some 10)"
    by (simp add: run_process_def example_process_loaded bind_def putenv_def
        get_current_os_environ get_current_example_process)
      (simp add: example_singleton_def deref_def compiled_defaults_def)
  moreover have "load_module [''RAY_CGRAPH_submit_timeout'' \<mapsto> ''not_a_number'']
      = Inl ValueError"
    by (simp add: load_module_def bind_def DEFAULT_SUBMIT_TIMEOUT_S_def env_int_def
        py_int_not_a_number)
  ultimately show ?thesis
    using py_int_not_a_number example_process_loaded by blast
qed

text \<open>
  C1, as the code has it. If, as the module is imported, the override of one of the seven
  integer fields holds a string that \<^verbatim>\<open>int\<close> rejects, the import fails with
  \<^verbatim>\<open>ValueError\<close>: there is no process state, no \<^verbatim>\<open>get_current()\<close> can be called and no
  field is given its compiled-in default, whatever the client would do next.
\<close>

theorem unparsable_override_aborts_import:
  assumes "k \<in> set int_override_names" and "env k = Some s"
    and "py_int s = Inl ValueError"
  shows "load_module env = Inl ValueError \<and> run_process env ops = Inl ValueError"
proof -
  have fails: "env_int env k d = Inl ValueError" for d
    using assms(2,3) by (rule env_int_fails)
  have no: "load_module env \<noteq> Inr p" for p
  proof
    assume l: "load_module env = Inr p"
    note f = load_module_fields [OF l]
    from int_override_names_cases [OF assms(1)] show False
    proof (elim disjE)
      assume 1: "k = ''RAY_CGRAPH_submit_timeout''"
      from fails [of 10] f(1) show False
        unfolding 1 DEFAULT_SUBMIT_TIMEOUT_S_def by simp
    next
      assume 2: "k = ''RAY_CGRAPH_get_timeout''"
      from fails [of 10] f(2) show False
        unfolding 2 DEFAULT_GET_TIMEOUT_S_def by simp
    next
      assume 3: "k = ''RAY_CGRAPH_teardown_timeout''"
      from fails [of 30] f(3) show False
        unfolding 3 DEFAULT_TEARDOWN_TIMEOUT_S_def by simp
    next
      assume 4: "k = ''RAY_CGRAPH_buffer_size_bytes''"
      from fails [of 1000000] f(4) show False
        unfolding 4 DEFAULT_BUFFER_SIZE_BYTES_def by simp
    next
      assume 5: "k = ''RAY_CGRAPH_asyncio_max_queue_size''"
      from fails [of 0] f(5) show False
        unfolding 5 DEFAULT_ASYNCIO_MAX_QUEUE_SIZE_def by simp
    next
      assume 6: "k = ''RAY_CGRAPH_max_buffered_results''"
      from fails [of 1000] f(6) show False
        unfolding 6 DEFAULT_MAX_BUFFERED_RESULTS_def by simp
    next
      assume 7: "k = ''RAY_CGRAPH_max_inflight_executions''"
      from fails [of 10] f(7) show False
        unfolding 7 DEFAULT_MAX_INFLIGHT_EXECUTIONS_def by simp
    qed
  qed
  then obtain e where "load_module env = Inl e"
    by (cases "load_module env") auto
  then have l: "load_module env = Inl ValueError"
    using error_unique [of e] by simp
  then show ?thesis
    by (simp add: run_process_def bind_def)
qed

theorem unparsable_override_aborts_import_witness:
  "''RAY_CGRAPH_submit_timeout'' \<in> set int_override_names \<and>
   [''RAY_CGRAPH_submit_timeout'' \<mapsto> ''not_a_number''] ''RAY_CGRAPH_submit_timeout''
     = Some ''not_a_number'' \<and>
   py_int ''not_a_number'' = Inl ValueError \<and>
   load_module [''RAY_CGRAPH_submit_timeout'' \<mapsto> ''not_a_number''] = Inl ValueError \<and>
   run_process [''RAY_CGRAPH_submit_timeout'' \<mapsto> ''not_a_number''] [] = Inl ValueError"
proof -
  have h1: "''RAY_CGRAPH_submit_timeout'' \<in> set int_override_names"
    by (simp add: int_override_names_def)
  have h2: "[''RAY_CGRAPH_submit_timeout'' \<mapsto> ''not_a_number''] ''RAY_CGRAPH_submit_timeout''
     = Some ''not_a_number''"
    by simp
  have h3: "py_int ''not_a_number'' = Inl ValueError"
    by (rule py_int_not_a_number)
  note t = unparsable_override_aborts_import
      [where k = "''RAY_CGRAPH_submit_timeout''" and s = "''not_a_number''"
         and env = "[''RAY_CGRAPH_submit_timeout'' \<mapsto> ''not_a_number'']" and ops = "[]",
       OF h1 h2 h3]
  have t1: "load_module [''RAY_CGRAPH_submit_timeout'' \<mapsto> ''not_a_number'']
              = Inl ValueError"
    using t by (rule conjunct1)
  have t2: "run_process [''RAY_CGRAPH_submit_timeout'' \<mapsto> ''not_a_number''] []
              = Inl ValueError"
    using t by (rule conjunct2)
  show ?thesis by (intro conjI h1 h2 h3 t1 t2)
qed

section \<open>How an override is parsed\<close>



section \<open>Concurrent first calls\<close>

lemma filter_update_none:
  "i < length xs \<Longrightarrow> filter P xs = [] \<Longrightarrow>
   filter P (xs[i := x]) = (if P x then [x] else [])"
proof -
  assume i: "i < length xs" and f: "filter P xs = []"
  have "xs = take i xs @ xs ! i # drop (Suc i) xs"
    using i by (simp add: id_take_nth_drop)
  then have "filter P (take i xs @ xs ! i # drop (Suc i) xs) = []"
    using f by simp
  then have "filter P (take i xs) = []" "filter P (drop (Suc i) xs) = []"
    by (simp_all split: if_splits)
  then show ?thesis
    using i by (simp add: upd_conv_take_nth_drop)
qed

lemma filter_update_one:
  assumes "i < length xs" and "P (xs ! i)" and "filter P xs = [y]"
  shows "y = xs ! i \<and> filter P (xs[i := x]) = (if P x then [x] else [])"
proof -
  have "xs = take i xs @ xs ! i # drop (Suc i) xs"
    using assms(1) by (simp add: id_take_nth_drop)
  then have "filter P (take i xs @ xs ! i # drop (Suc i) xs) = [y]"
    using assms(3) by simp
  then have "filter P (take i xs) @ xs ! i # filter P (drop (Suc i) xs) = [y]"
    using assms(2) by simp
  then have "filter P (take i xs) = []" "filter P (drop (Suc i) xs) = []" "y = xs ! i"
    by (simp_all add: append_eq_Cons_conv)
  then show ?thesis
    using assms(1) by (simp add: upd_conv_take_nth_drop)
qed

lemma list_all_update: "list_all P xs \<Longrightarrow> P x \<Longrightarrow> list_all P (xs[i := x])"
  using set_update_subset_insert [of xs i x] by (auto simp: list_all_iff)

lemma returned_ok_unset:
  assumes "default_context p = None" and "list_all (returned_ok p0 p) ts"
  shows "list_all (returned_ok p0 p') ts"
  unfolding list_all_iff
proof
  fix t assume "t \<in> set ts"
  with assms(2) have "returned_ok p0 p t" by (simp add: list_all_iff)
  with assms(1) show "returned_ok p0 p' t" by (cases t) simp_all
qed

lemma invariant_free:
  assumes "invariant p0 s" and "\<not> context_lock s"
  shows "filter in_critical (threads s) = [] \<and> holder_ok p0 (proc s) At_test"
  using assms by (auto simp: invariant_def split: list.splits)

lemma invariant_holder:
  assumes "invariant p0 s" and "i < length (threads s)" and "in_critical (threads s ! i)"
  shows "filter in_critical (threads s) = [threads s ! i] \<and> context_lock s \<and>
         holder_ok p0 (proc s) (threads s ! i)"
proof -
  have "filter in_critical (threads s) \<noteq> []"
    using assms(2,3) by (auto simp: filter_empty_conv)
  with assms(1) obtain l where l: "filter in_critical (threads s) = [l]"
    and c: "context_lock s" and h: "holder_ok p0 (proc s) l"
    by (auto simp: invariant_def split: list.splits)
  from filter_update_one [OF assms(2,3) l] have "l = threads s ! i" by simp
  with l c h show ?thesis by simp
qed

lemma invariant_enter:
  assumes "field_defaults p = field_defaults p0" and "list_all (returned_ok p0 p) ts"
    and "filter in_critical ts = [l]" and "holder_ok p0 p l"
  shows "invariant p0 \<lparr> proc = p, context_lock = True, threads = ts \<rparr>"
  using assms by (simp add: invariant_def)

lemma invariant_leave:
  assumes "field_defaults p = field_defaults p0" and "list_all (returned_ok p0 p) ts"
    and "filter in_critical ts = []" and "holder_ok p0 p At_test"
  shows "invariant p0 \<lparr> proc = p, context_lock = False, threads = ts \<rparr>"
  using assms by (simp add: invariant_def)

lemma system_updates:
  "s\<lparr> context_lock := c, threads := ts \<rparr> = \<lparr> proc = proc s, context_lock = c, threads = ts \<rparr>"
  "s\<lparr> threads := ts \<rparr> = \<lparr> proc = proc s, context_lock = context_lock s, threads = ts \<rparr>"
  "s\<lparr> proc := p, threads := ts \<rparr> = \<lparr> proc = p, context_lock = context_lock s, threads = ts \<rparr>"
  by (cases s, simp)+

lemma invariant_step:
  assumes inv: "invariant p0 s" and step: "thread_step i s = Some s'"
  shows "invariant p0 s'"
proof -
  from step have i: "i < length (threads s)"
    by (simp add: thread_step_def split: if_splits)
  from inv have fd: "field_defaults (proc s) = field_defaults p0"
    and ret: "list_all (returned_ok p0 (proc s)) (threads s)"
    by (simp_all add: invariant_def)
  show ?thesis
  proof (cases "threads s ! i")
    case At_acquire
    with step i have free: "\<not> context_lock s"
      and s': "s' = \<lparr> proc = proc s, context_lock = True,
                      threads = (threads s)[i := At_test] \<rparr>"
      by (auto simp: thread_step_def goto_def system_updates split: if_splits)
    from invariant_free [OF inv free]
    have f: "filter in_critical (threads s) = []" and h: "holder_ok p0 (proc s) At_test"
      by simp_all
    have "filter in_critical ((threads s)[i := At_test]) = [At_test]"
      using filter_update_none [OF i f, of At_test] by simp
    moreover have "list_all (returned_ok p0 (proc s)) ((threads s)[i := At_test])"
      using ret by (rule list_all_update) simp
    ultimately show ?thesis
      unfolding s' using fd h by (intro invariant_enter)
  next
    case At_test
    let ?l = "if default_context (proc s) = None then At_construct else At_return"
    from At_test step i
    have s': "s' = \<lparr> proc = proc s, context_lock = context_lock s,
                     threads = (threads s)[i := ?l] \<rparr>"
      by (auto simp: thread_step_def goto_def system_updates)
    from invariant_holder [OF inv i] At_test
    have f: "filter in_critical (threads s) = [At_test]" and c: "context_lock s = True"
      and h: "holder_ok p0 (proc s) At_test"
      by simp_all
    have "filter in_critical ((threads s)[i := ?l]) = [?l]"
      using filter_update_one [OF i _ f, of ?l] At_test by simp
    moreover have "list_all (returned_ok p0 (proc s)) ((threads s)[i := ?l])"
      using ret by (rule list_all_update) simp
    moreover have "holder_ok p0 (proc s) ?l"
      using h by auto
    ultimately show ?thesis
      unfolding s' c using fd by (intro invariant_enter)
  next
    case At_construct
    let ?p = "(proc s)\<lparr> heap := heap (proc s) @ [field_defaults (proc s)] \<rparr>"
    let ?l = "At_assign (length (heap (proc s)))"
    from At_construct step i
    have s': "s' = \<lparr> proc = ?p, context_lock = context_lock s,
                     threads = (threads s)[i := ?l] \<rparr>"
      by (auto simp: thread_step_def goto_def new_DAGContext_def init_fields_no_args
          system_updates)
    from invariant_holder [OF inv i] At_construct
    have f: "filter in_critical (threads s) = [At_construct]" and c: "context_lock s = True"
      and h: "holder_ok p0 (proc s) At_construct"
      by simp_all
    have "filter in_critical ((threads s)[i := ?l]) = [?l]"
      using filter_update_one [OF i _ f, of ?l] At_construct by simp
    moreover have "list_all (returned_ok p0 ?p) ((threads s)[i := ?l])"
      using returned_ok_unset [OF _ ret, of ?p] h by (intro list_all_update) simp_all
    moreover have "holder_ok p0 ?p ?l"
      using h fd by simp
    moreover have "field_defaults ?p = field_defaults p0"
      using fd by simp
    ultimately show ?thesis
      unfolding s' c by (intro invariant_enter)
  next
    case (At_assign r)
    let ?p = "(proc s)\<lparr> default_context := Some r \<rparr>"
    from At_assign step i
    have s': "s' = \<lparr> proc = ?p, context_lock = context_lock s,
                     threads = (threads s)[i := At_return] \<rparr>"
      by (auto simp: thread_step_def goto_def system_updates)
    from invariant_holder [OF inv i] At_assign
    have f: "filter in_critical (threads s) = [At_assign r]" and c: "context_lock s = True"
      and h: "holder_ok p0 (proc s) (At_assign r)"
      by simp_all
    have "filter in_critical ((threads s)[i := At_return]) = [At_return]"
      using filter_update_one [OF i _ f, of At_return] At_assign by simp
    moreover have "list_all (returned_ok p0 ?p) ((threads s)[i := At_return])"
      using returned_ok_unset [OF _ ret, of ?p] h by (intro list_all_update) simp_all
    moreover have "holder_ok p0 ?p At_return"
      using h by simp
    moreover have "field_defaults ?p = field_defaults p0"
      using fd by simp
    ultimately show ?thesis
      unfolding s' c by (intro invariant_enter)
  next
    case At_return
    let ?l = "At_release (default_context (proc s))"
    from At_return step i
    have s': "s' = \<lparr> proc = proc s, context_lock = context_lock s,
                     threads = (threads s)[i := ?l] \<rparr>"
      by (auto simp: thread_step_def goto_def system_updates)
    from invariant_holder [OF inv i] At_return
    have f: "filter in_critical (threads s) = [At_return]" and c: "context_lock s = True"
      and h: "holder_ok p0 (proc s) At_return"
      by simp_all
    have "filter in_critical ((threads s)[i := ?l]) = [?l]"
      using filter_update_one [OF i _ f, of ?l] At_return by simp
    moreover have "list_all (returned_ok p0 (proc s)) ((threads s)[i := ?l])"
      using ret by (rule list_all_update) simp
    moreover have "holder_ok p0 (proc s) ?l"
      using h by simp
    ultimately show ?thesis
      unfolding s' c using fd by (intro invariant_enter)
  next
    case (At_release v)
    from At_release step i
    have s': "s' = \<lparr> proc = proc s, context_lock = False,
                     threads = (threads s)[i := Returned v] \<rparr>"
      by (auto simp: thread_step_def goto_def system_updates)
    from invariant_holder [OF inv i] At_release
    have f: "filter in_critical (threads s) = [At_release v]"
      and h: "holder_ok p0 (proc s) (At_release v)"
      by simp_all
    have "filter in_critical ((threads s)[i := Returned v]) = []"
      using filter_update_one [OF i _ f, of "Returned v"] At_release by simp
    moreover have "list_all (returned_ok p0 (proc s)) ((threads s)[i := Returned v])"
      using ret h by (intro list_all_update) simp_all
    moreover have "holder_ok p0 (proc s) At_test"
      using h by simp
    ultimately show ?thesis
      unfolding s' using fd by (intro invariant_leave)
  next
    case (Returned v)
    with step i show ?thesis
      by (simp add: thread_step_def)
  qed
qed

lemma invariant_spawn: "default_context p0 = None \<Longrightarrow> invariant p0 (spawn n p0)"
  by (simp add: invariant_def spawn_def list_all_iff)

lemma invariant_reachable:
  assumes "default_context p0 = None" and "reachable (spawn n p0) s"
  shows "invariant p0 s"
  using assms(2)
proof (induction rule: reachable.induct)
  case reachable_init
  show ?case using assms(1) by (rule invariant_spawn)
next
  case (reachable_step s i s')
  then show ?case by (simp add: invariant_step)
qed

lemma length_threads_step: "thread_step i s = Some s' \<Longrightarrow> length (threads s') = length (threads s)"
  by (auto simp: thread_step_def goto_def split: if_splits pc.splits prod.splits)

lemma length_threads_reachable: "reachable (spawn n p0) s \<Longrightarrow> length (threads s) = n"
  by (induction rule: reachable.induct) (simp_all add: spawn_def length_threads_step)

lemma invariant_shape:
  assumes "invariant p0 s"
  shows "default_context (proc s) = None \<and>
           (heap (proc s) = heap p0 \<or> heap (proc s) = heap p0 @ [field_defaults p0]) \<or>
         default_context (proc s) = Some (length (heap p0)) \<and>
           heap (proc s) = heap p0 @ [field_defaults p0]"
proof (cases "filter in_critical (threads s)")
  case Nil
  with assms show ?thesis by (auto simp: invariant_def)
next
  case (Cons l ls)
  with assms have "holder_ok p0 (proc s) l"
    by (auto simp: invariant_def split: list.splits)
  then show ?thesis by (cases l) auto
qed

lemma invariant_exclusion:
  assumes "invariant p0 s"
  shows "length (filter in_critical (threads s)) \<le> 1 \<and>
         context_lock s = (filter in_critical (threads s) \<noteq> [])"
  using assms by (auto simp: invariant_def split: list.splits)

lemma invariant_returned:
  assumes "invariant p0 s" and "i < length (threads s)" and "threads s ! i = Returned v"
  shows "v = Some (length (heap p0)) \<and>
         default_context (proc s) = Some (length (heap p0)) \<and>
         heap (proc s) = heap p0 @ [field_defaults p0]"
proof -
  from assms(1) have "list_all (returned_ok p0 (proc s)) (threads s)"
    by (simp add: invariant_def)
  with assms(2) have "returned_ok p0 (proc s) (threads s ! i)"
    by (simp add: list_all_length)
  with assms(3) show ?thesis by simp
qed

lemma critical_can_step:
  assumes "i < length (threads s)" and "in_critical (threads s ! i)"
  shows "\<exists>s'. thread_step i s = Some s'"
  using assms by (cases "threads s ! i") (simp_all add: thread_step_def split: prod.splits)

lemma invariant_progress:
  assumes "invariant p0 s"
  shows "(\<forall>i<length (threads s). \<exists>v. threads s ! i = Returned v) \<or>
         (\<exists>i s'. thread_step i s = Some s')"
proof (cases "context_lock s")
  case True
  with assms obtain l where "filter in_critical (threads s) = [l]"
    by (auto simp: invariant_def split: list.splits)
  then have "l \<in> set (filter in_critical (threads s))" by simp
  then have "l \<in> set (threads s)" and c: "in_critical l" by simp_all
  then obtain i where "i < length (threads s)" and "threads s ! i = l"
    by (auto simp: in_set_conv_nth)
  with c show ?thesis using critical_can_step [of i s] by blast
next
  case False
  show ?thesis
  proof (cases "\<exists>i<length (threads s). threads s ! i = At_acquire")
    case True
    then obtain i where "i < length (threads s)" and "threads s ! i = At_acquire" by blast
    with False have "\<exists>s'. thread_step i s = Some s'"
      by (simp add: thread_step_def)
    then show ?thesis by blast
  next
    case none: False
    from invariant_free [OF assms False] have f: "filter in_critical (threads s) = []"
      by simp
    have "\<exists>v. threads s ! i = Returned v" if i: "i < length (threads s)" for i
    proof -
      from f i have "\<not> in_critical (threads s ! i)"
        by (auto simp: filter_empty_conv)
      moreover from none i have "threads s ! i \<noteq> At_acquire" by blast
      ultimately show ?thesis by (cases "threads s ! i") simp_all
    qed
    then show ?thesis by blast
  qed
qed

lemma sum_list_map_update_less:
  fixes f :: "'a \<Rightarrow> nat"
  assumes "i < length xs" and "f x < f (xs ! i)"
  shows "sum_list (map f (xs[i := x])) < sum_list (map f xs)"
proof -
  have "f (xs ! i) \<le> sum_list (map f xs)"
    using assms(1) by (simp add: member_le_sum_list)
  moreover have "sum_list (map f (xs[i := x])) = sum_list (map f xs) + f x - f (xs ! i)"
    using assms(1) by (simp add: map_update sum_list_update)
  ultimately show ?thesis using assms(2) by simp
qed

lemma work_step: "thread_step i s = Some s' \<Longrightarrow> work s' < work s"
  by (cases "threads s ! i")
    (auto simp: thread_step_def goto_def work_def sum_list_map_update_less
          split: if_splits prod.splits)

lemma run_schedule_reachable:
  "reachable s0 s \<Longrightarrow> run_schedule sched s = Some s' \<Longrightarrow> reachable s0 s'"
proof (induction sched arbitrary: s)
  case Nil
  then show ?case by simp
next
  case (Cons i sched)
  from Cons.prems(2) obtain s1 where 1: "thread_step i s = Some s1"
    and 2: "run_schedule sched s1 = Some s'"
    by (auto split: option.splits)
  from Cons.prems(1) 1 have "reachable s0 s1" by (rule reachable_step)
  then show ?case using 2 by (rule Cons.IH)
qed

lemmas step_defs =
  thread_step_def goto_def spawn_def new_DAGContext_def init_fields_no_args
  example_process_def example_singleton_def

lemma example_final_run:
  "run_schedule [1, 1, 1, 1, 1, 1, 0, 0, 0, 0] (spawn 2 example_process) = Some example_final"
  by (simp add: step_defs example_final_def numeral_2_eq_2)

lemma example_midway_run:
  "run_schedule [1, 1, 1] (spawn 2 example_process) = Some example_midway"
  by (simp add: step_defs example_midway_def numeral_2_eq_2)

lemma single_thread_fresh:
  assumes "default_context p = None"
  shows "run_schedule [0, 0, 0, 0, 0, 0] (spawn 1 p) =
           Some \<lparr> proc = snd (get_current p), context_lock = False,
                  threads = [Returned (Some (fst (get_current p)))] \<rparr>"
  using assms
  by (simp add: thread_step_def goto_def spawn_def new_DAGContext_def init_fields_no_args
      get_current_fresh)

lemma single_thread_existing:
  assumes "default_context p = Some r"
  shows "run_schedule [0, 0, 0, 0] (spawn 1 p) =
           Some \<lparr> proc = snd (get_current p), context_lock = False,
                  threads = [Returned (Some (fst (get_current p)))] \<rparr>"
  using assms
  by (simp add: thread_step_def goto_def spawn_def get_current_existing)

text \<open>
  C7. Let any number of threads call \<^verbatim>\<open>get_current()\<close> at once in a process whose
  singleton does not exist yet. In every state that any interleaving of their steps can
  reach: at most one thread is inside the \<^verbatim>\<open>with\<close> block, and the lock is held exactly
  when one is, so no thread reads \<^verbatim>\<open>_default_context\<close> while another is between its
  test and its assignment; at most one object has been constructed; once the global is
  set it refers to that object, whose fields are the field defaults; every thread that
  has returned has returned that same reference; some thread can move unless all have
  returned, and every step uses up work, so every call returns.
\<close>

theorem concurrent_first_calls_one_instance:
  assumes "default_context p0 = None" and "reachable (spawn n p0) s"
  shows "length (threads s) = n \<and>
         length (filter in_critical (threads s)) \<le> 1 \<and>
         context_lock s = (filter in_critical (threads s) \<noteq> []) \<and>
         (heap (proc s) = heap p0 \<or> heap (proc s) = heap p0 @ [field_defaults p0]) \<and>
         (\<forall>r. default_context (proc s) = Some r \<longrightarrow>
              r = length (heap p0) \<and> deref r (proc s) = Some (field_defaults p0)) \<and>
         (\<forall>i<n. \<forall>v. threads s ! i = Returned v \<longrightarrow>
              v = Some (length (heap p0)) \<and> default_context (proc s) = v) \<and>
         ((\<forall>i<n. \<exists>v. threads s ! i = Returned v) \<or> (\<exists>i s'. thread_step i s = Some s')) \<and>
         (\<forall>i s'. thread_step i s = Some s' \<longrightarrow> work s' < work s)"
proof -
  from assms have inv: "invariant p0 s" by (rule invariant_reachable)
  from assms(2) have n: "length (threads s) = n" by (rule length_threads_reachable)
  note shape = invariant_shape [OF inv]
  have 1: "heap (proc s) = heap p0 \<or> heap (proc s) = heap p0 @ [field_defaults p0]"
    using shape by blast
  have 2: "\<forall>r. default_context (proc s) = Some r \<longrightarrow>
              r = length (heap p0) \<and> deref r (proc s) = Some (field_defaults p0)"
    using shape by (auto simp: deref_def)
  have 3: "\<forall>i<n. \<forall>v. threads s ! i = Returned v \<longrightarrow>
              v = Some (length (heap p0)) \<and> default_context (proc s) = v"
    using invariant_returned [OF inv] n by auto
  have 4: "(\<forall>i<n. \<exists>v. threads s ! i = Returned v) \<or> (\<exists>i s'. thread_step i s = Some s')"
    using invariant_progress [OF inv] n by simp
  have 5: "\<forall>i s'. thread_step i s = Some s' \<longrightarrow> work s' < work s"
    by (simp add: work_step)
  from n invariant_exclusion [OF inv] 1 2 3 4 5 show ?thesis by blast
qed

theorem concurrent_first_calls_one_instance_witness:
  "default_context example_process = None \<and>
   reachable (spawn 2 example_process) example_final \<and>
   threads example_final = [Returned (Some 0), Returned (Some 0)] \<and>
   heap (proc example_final) = [compiled_defaults] \<and>
   deref 0 (proc example_final) = Some compiled_defaults \<and>
   reachable (spawn 2 example_process) example_midway \<and>
   length (filter in_critical (threads example_midway)) \<le> 1 \<and>
   thread_step 0 example_midway = None \<and>
   thread_step 1 example_midway \<noteq> None"
proof -
  have h1: "default_context example_process = None"
    by (simp add: example_process_def)
  have h2: "reachable (spawn 2 example_process) example_final"
    using reachable_init example_final_run by (rule run_schedule_reachable)
  have h3: "reachable (spawn 2 example_process) example_midway"
    using reachable_init example_midway_run by (rule run_schedule_reachable)
  have e: "heap example_process = []" "field_defaults example_process = compiled_defaults"
    by (simp_all add: example_process_def)
  note t = concurrent_first_calls_one_instance [OF h1 h2]
  have a: "threads example_final = [Returned (Some 0), Returned (Some 0)]"
    by (simp add: example_final_def)
  have "default_context (proc example_final) = Some 0"
    by (simp add: example_final_def example_singleton_def)
  with t have b: "deref 0 (proc example_final) = Some compiled_defaults"
    unfolding e by blast
  have "heap (proc example_final) \<noteq> []"
    by (simp add: example_final_def example_singleton_def)
  with t have c: "heap (proc example_final) = [compiled_defaults]"
    unfolding e by auto
  note u = concurrent_first_calls_one_instance [OF h1 h3]
  then have d: "length (filter in_critical (threads example_midway)) \<le> 1"
    by blast
  have f: "thread_step 0 example_midway = None" "thread_step 1 example_midway \<noteq> None"
    by (simp_all add: thread_step_def example_midway_def)
  from h1 h2 h3 a b c d f show ?thesis by blast
qed

end
